theory Spec2Isabelle
  imports Complex_Main "HOL-Library.Sublist"
begin

section \<open>Python values and exceptions\<close>

text \<open>
  A Python \<open>str\<close> is modelled as a \<open>string\<close> whose characters are the code points
  below 256. Exceptions are values: every operation of the source that can raise
  returns \<open>exn + 'a\<close>, with \<open>Inl\<close> for the exception. All exceptions modelled are
  subclasses of Python's \<open>Exception\<close>, which is what the handlers of the source catch.
\<close>

datatype exn =
    KeyError string
  | TypeError
  | AttributeError
  | ValueError
  | IndexError
  | MediaError string

text \<open>\<open>str.isspace\<close> on the code points below 256.\<close>

definition isspace :: "char \<Rightarrow> bool" where
  "isspace c = ((of_char c :: nat) \<in> set [9, 10, 11, 12, 13, 28, 29, 30, 31, 32, 133, 160])"

text \<open>\<open>str.strip()\<close> without arguments: whitespace removed at both ends.\<close>

definition py_strip :: "string \<Rightarrow> string" where
  "py_strip s = rev (dropWhile isspace (rev (dropWhile isspace s)))"

text \<open>\<open>str.lower()\<close>: the letters A-Z and the upper-case letters of Latin-1 move by 32.\<close>

definition lower_char :: "char \<Rightarrow> char" where
  "lower_char c =
     (let n = (of_char c :: nat)
      in if (65 \<le> n \<and> n \<le> 90) \<or> (192 \<le> n \<and> n \<le> 222 \<and> n \<noteq> 215)
         then char_of (n + 32) else c)"

definition py_lower :: "string \<Rightarrow> string" where
  "py_lower s = map lower_char s"

text \<open>\<open>text.split('\n')\<close>: always at least one piece.\<close>

fun split_newline :: "string \<Rightarrow> string list" where
  "split_newline [] = [[]]"
| "split_newline (c # cs) =
     (if c = CHR 0x0A then [] # split_newline cs
      else (case split_newline cs of
              [] \<Rightarrow> [[c]]
            | l # ls \<Rightarrow> (c # l) # ls))"

text \<open>\<open>xs[i]\<close> for a non-negative index: IndexError out of range.\<close>

definition py_getitem :: "'a list \<Rightarrow> nat \<Rightarrow> exn + 'a" where
  "py_getitem xs i = (if i < length xs then Inr (xs ! i) else Inl IndexError)"

text \<open>\<open>xs.index(v)\<close>: the first position of \<open>v\<close>, ValueError when absent.\<close>

fun py_index :: "'a list \<Rightarrow> 'a \<Rightarrow> exn + nat" where
  "py_index [] v = Inl ValueError"
| "py_index (x # xs) v =
     (if x = v then Inr 0
      else (case py_index xs v of Inl e \<Rightarrow> Inl e | Inr k \<Rightarrow> Inr (Suc k)))"

section \<open>The structured-script parser (utils.py, parse\_structured\_script)\<close>

record cue =
  cue_type :: string
  content :: string
  dialogue_index :: int

text \<open>\<open>line.strip().lower()\<close>\<close>

definition clean_line :: "string \<Rightarrow> string" where
  "clean_line line = py_lower (py_strip line)"

text \<open>\<open>clean_line.replace(':', '')\<close>\<close>

definition replace_colon :: "string \<Rightarrow> string" where
  "replace_colon s = filter (\<lambda>c. c \<noteq> CHR '':'') s"

text \<open>
  Line 85: \<open>[i for i, line in enumerate(lines) if line.strip().lower() == 'dialogue:']\<close>
\<close>

definition dialogue_indices :: "string list \<Rightarrow> nat list" where
  "dialogue_indices lines =
     map fst (filter (\<lambda>(i, line). clean_line line = ''dialogue:'') (enumerate 0 lines))"

text \<open>
  Lines 99-102: the scan of \<open>dialogue_indices\<close> that keeps, in \<open>last_dialogue_index\<close>,
  the position of the last entry below \<open>i\<close>.
\<close>

fun last_dialogue_loop :: "nat list \<Rightarrow> nat \<Rightarrow> nat list \<Rightarrow> int \<Rightarrow> exn + int" where
  "last_dialogue_loop dis i [] last_dialogue_index = Inr last_dialogue_index"
| "last_dialogue_loop dis i (idx_dialogue_line # rest) last_dialogue_index =
     (if idx_dialogue_line < i
      then (case py_index dis idx_dialogue_line of
              Inl e \<Rightarrow> Inl e
            | Inr k \<Rightarrow> last_dialogue_loop dis i rest (int k))
      else last_dialogue_loop dis i rest last_dialogue_index)"

text \<open>
  Lines 88-104: the body of the main loop for line \<open>i\<close>. The state is the pair of
  \<open>dialogue_count\<close> and \<open>script_cues\<close>.
\<close>

definition parse_line ::
  "string list \<Rightarrow> nat list \<Rightarrow> nat \<Rightarrow> string \<Rightarrow> int \<times> cue list \<Rightarrow> exn + (int \<times> cue list)" where
  "parse_line lines dis i line st =
     (let dialogue_count = fst st; script_cues = snd st; cl = clean_line line
      in if cl \<in> set [''dialogue:'', ''b-roll:'', ''overlay:''] then
           (let ctype = replace_colon cl
            in if i + 1 < length lines then
                 (case py_getitem lines (i + 1) of
                    Inl e \<Rightarrow> Inl e
                  | Inr nxt \<Rightarrow>
                      (let cont = py_strip nxt
                       in if cont \<noteq> [] then
                            (if ctype = ''dialogue'' then
                               Inr (dialogue_count + 1,
                                    script_cues @ [\<lparr>cue_type = ctype, content = cont,
                                                    dialogue_index = dialogue_count\<rparr>])
                             else
                               (case last_dialogue_loop dis i dis (- 1) of
                                  Inl e \<Rightarrow> Inl e
                                | Inr l \<Rightarrow>
                                    Inr (dialogue_count,
                                         script_cues @ [\<lparr>cue_type = ctype, content = cont,
                                                         dialogue_index = l\<rparr>])))
                          else Inr st))
               else Inr st)
         else Inr st)"

fun parse_loop ::
  "string list \<Rightarrow> nat list \<Rightarrow> (nat \<times> string) list \<Rightarrow> int \<times> cue list \<Rightarrow> exn + (int \<times> cue list)" where
  "parse_loop lines dis [] st = Inr st"
| "parse_loop lines dis ((i, line) # rest) st =
     (case parse_line lines dis i line st of
        Inl e \<Rightarrow> Inl e
      | Inr st' \<Rightarrow> parse_loop lines dis rest st')"

definition parse_structured_script :: "string \<Rightarrow> exn + cue list" where
  "parse_structured_script text =
     (let lines = split_newline text;
          dis = dialogue_indices lines
      in case parse_loop lines dis (enumerate 0 lines) (0, []) of
           Inl e \<Rightarrow> Inl e
         | Inr st \<Rightarrow> Inr (snd st))"

section \<open>Values of a cut and of the library calls\<close>

text \<open>
  The values a cut can hold (the scalars of JSON). A float is carried as the real number
  it denotes: rounding, NaN, the infinities and the overflow of an int too large for a
  float are left out. The properties below rest on the order of the numbers only.
\<close>

datatype pyval = PNone | PBool bool | PInt int | PFloat real | PStr string

text \<open>The numeric value of a Python number (\<open>bool\<close> is a subclass of \<open>int\<close>).\<close>

fun py_number :: "pyval \<Rightarrow> real option" where
  "py_number (PBool b) = Some (if b then 1 else 0)"
| "py_number (PInt n) = Some (real_of_int n)"
| "py_number (PFloat r) = Some r"
| "py_number PNone = None"
| "py_number (PStr s) = None"

fun py_int :: "pyval \<Rightarrow> int option" where
  "py_int (PBool b) = Some (if b then 1 else 0)"
| "py_int (PInt n) = Some n"
| "py_int (PFloat r) = None"
| "py_int PNone = None"
| "py_int (PStr s) = None"

text \<open>\<open>a < b\<close> on strings: lexicographic, by code point.\<close>

fun str_less :: "string \<Rightarrow> string \<Rightarrow> bool" where
  "str_less [] [] = False"
| "str_less [] (y # ys) = True"
| "str_less (x # xs) [] = False"
| "str_less (x # xs) (y # ys) =
     ((of_char x :: nat) < of_char y \<or> (x = y \<and> str_less xs ys))"

text \<open>
  \<open>a > b\<close>: numbers compare by value, strings lexicographically, every other pairing
  raises TypeError.
\<close>

fun py_gt :: "pyval \<Rightarrow> pyval \<Rightarrow> exn + bool" where
  "py_gt (PStr s) (PStr t) = Inr (str_less t s)"
| "py_gt a b =
     (case (py_number a, py_number b) of
        (Some x, Some y) \<Rightarrow> Inr (y < x)
      | _ \<Rightarrow> Inl TypeError)"

text \<open>\<open>a - b\<close>: defined on numbers only; an int when both are ints.\<close>

definition py_sub :: "pyval \<Rightarrow> pyval \<Rightarrow> exn + pyval" where
  "py_sub a b =
     (case (py_int a, py_int b) of
        (Some m, Some n) \<Rightarrow> Inr (PInt (m - n))
      | _ \<Rightarrow>
        (case (py_number a, py_number b) of
           (Some x, Some y) \<Rightarrow> Inr (PFloat (x - y))
         | _ \<Rightarrow> Inl TypeError))"

text \<open>\<open>v.lower()\<close>: only a \<open>str\<close> has the method.\<close>

fun py_lower_method :: "pyval \<Rightarrow> exn + string" where
  "py_lower_method (PStr s) = Inr (py_lower s)"
| "py_lower_method v = Inl AttributeError"

text \<open>\<open>d[k]\<close> on a dict: KeyError when the key is absent.\<close>

definition dict_getitem :: "(string \<rightharpoonup> 'v) \<Rightarrow> string \<Rightarrow> exn + 'v" where
  "dict_getitem d k = (case d k of None \<Rightarrow> Inl (KeyError k) | Some v \<Rightarrow> Inr v)"

text \<open>
  An element of the cut list, as \<open>json.loads\<close> delivers it: a dict, or any other value
  (a list, a number, a string, a boolean, \<open>None\<close>). The values that are not dicts behave
  alike in \<open>assemble_video\<close>: \<open>cut['start']\<close> raises TypeError and they have no method
  \<open>get\<close>.
\<close>

datatype cut = Cut_dict "string \<rightharpoonup> pyval" | Cut_other

text \<open>\<open>cut[key]\<close>, line 250.\<close>

fun cut_getitem :: "cut \<Rightarrow> string \<Rightarrow> exn + pyval" where
  "cut_getitem (Cut_dict d) key = dict_getitem d key"
| "cut_getitem Cut_other key = Inl TypeError"

text \<open>\<open>cut.get(key, 'unknown')\<close>, line 295.\<close>

fun cut_get :: "cut \<Rightarrow> string \<Rightarrow> exn + pyval" where
  "cut_get (Cut_dict d) key = Inr (case d key of None \<Rightarrow> PStr ''unknown'' | Some v \<Rightarrow> v)"
| "cut_get Cut_other key = Inl AttributeError"

section \<open>The media library\<close>

text \<open>
  The calls into MoviePy are operations of an environment; each may raise. A chain of
  library calls that the source evaluates as one expression inside one \<open>try\<close> block is
  one operation. The type of clips is a parameter.
\<close>

datatype position = Anchor string | AnchorXY string string

record 'clip media =
  VideoFileClip :: "string \<Rightarrow> exn + 'clip"
  subclip :: "'clip \<Rightarrow> pyval \<Rightarrow> pyval \<Rightarrow> exn + 'clip"
  b_roll_clip :: "string \<Rightarrow> pyval \<Rightarrow> 'clip \<Rightarrow> 'clip \<Rightarrow> exn + 'clip"
  clip_size :: "'clip \<Rightarrow> int \<times> int"
  TextClip :: "pyval \<Rightarrow> int \<Rightarrow> int \<Rightarrow> position \<Rightarrow> pyval \<Rightarrow> exn + 'clip"
  CompositeVideoClip :: "'clip list \<Rightarrow> exn + 'clip"
  concatenate_videoclips :: "'clip list \<Rightarrow> exn + 'clip"
  logo_clip :: "string \<Rightarrow> 'clip \<Rightarrow> 'clip \<Rightarrow> exn + 'clip"
  write_videofile :: "'clip \<Rightarrow> string \<Rightarrow> exn + unit"

text \<open>
  \<open>VideoFileClip lib path\<close> opens the source at line 244.
  \<open>subclip lib clip start end\<close> is \<open>clip.subclip(start, end)\<close> at line 253.
  \<open>b_roll_clip lib path duration main current\<close> is lines 265-266:
  \<open>VideoFileClip(path).set_duration(duration).resize(height=main.h).set_audio(current.audio)\<close>.
  \<open>clip_size lib clip\<close> is the attribute \<open>clip.size\<close>.
  \<open>TextClip lib text font_size video_width position duration\<close> is lines 195-199.
  \<open>logo_clip lib logo_file final_video main\<close> is lines 312-313.
  \<open>write_videofile lib clip path\<close> is line 321.
\<close>

section \<open>create\_text\_clip\<close>

text \<open>
  Line 194: \<open>int(video_width / font_size_ratio)\<close>, the integer quotient for the
  non-negative widths and the ratios 40 and 25 of the callers.
\<close>

definition create_text_clip ::
  "'clip media \<Rightarrow> pyval \<Rightarrow> pyval \<Rightarrow> int \<times> int \<Rightarrow> int \<Rightarrow> position \<Rightarrow> exn + 'clip" where
  "create_text_clip lib text duration video_size font_size_ratio pos =
     (let video_width = fst video_size;
          font_size = video_width div font_size_ratio
      in TextClip lib text font_size video_width pos duration)"

section \<open>B-roll matching (assemble\_video, lines 256-262)\<close>

text \<open>Line 259: \<open>keyword and keyword in dialogue_text.lower()\<close>.\<close>

definition keyword_test :: "string \<Rightarrow> pyval \<Rightarrow> exn + bool" where
  "keyword_test keyword dialogue_text =
     (if keyword = [] then Inr False
      else (case py_lower_method dialogue_text of
              Inl e \<Rightarrow> Inl e
            | Inr low \<Rightarrow> Inr (sublist keyword low)))"

text \<open>Lines 258-261: the loop over the keywords of one asset, left by \<open>break\<close> at a hit.\<close>

fun keywords_loop ::
  "(string \<rightharpoonup> string) \<Rightarrow> string \<Rightarrow> pyval \<Rightarrow> string list \<Rightarrow> string option \<Rightarrow> exn + string option" where
  "keywords_loop b_roll_files filename dialogue_text [] matched = Inr matched"
| "keywords_loop b_roll_files filename dialogue_text (keyword # rest) matched =
     (case keyword_test keyword dialogue_text of
        Inl e \<Rightarrow> Inl e
      | Inr hit \<Rightarrow>
          if hit then Inr (b_roll_files filename)
          else keywords_loop b_roll_files filename dialogue_text rest matched)"

text \<open>Truth value of \<open>matched_b_roll_path\<close>: neither \<open>None\<close> nor the empty string.\<close>

definition truthy_path :: "string option \<Rightarrow> bool" where
  "truthy_path p = (case p of None \<Rightarrow> False | Some s \<Rightarrow> s \<noteq> [])"

text \<open>Lines 257-262: the loop over the assets, left at line 262 once a path is set.\<close>

fun assets_loop ::
  "(string \<rightharpoonup> string) \<Rightarrow> pyval \<Rightarrow> (string \<times> string list) list \<Rightarrow> string option \<Rightarrow> exn + string option" where
  "assets_loop b_roll_files dialogue_text [] matched = Inr matched"
| "assets_loop b_roll_files dialogue_text ((filename, keyword_list) # rest) matched =
     (case keywords_loop b_roll_files filename dialogue_text keyword_list matched of
        Inl e \<Rightarrow> Inl e
      | Inr m \<Rightarrow>
          if truthy_path m then Inr m
          else assets_loop b_roll_files dialogue_text rest m)"

definition match_b_roll ::
  "(string \<rightharpoonup> string) \<Rightarrow> (string \<times> string list) list \<Rightarrow> pyval \<Rightarrow> exn + string option" where
  "match_b_roll b_roll_files b_roll_keyword_map dialogue_text =
     assets_loop b_roll_files dialogue_text b_roll_keyword_map None"

section \<open>assemble\_video\<close>

text \<open>The arguments of \<open>assemble_video\<close> other than the cut list.\<close>

record options =
  original_video_path :: string
  script_cues :: "cue list"
  b_roll_files :: "string \<rightharpoonup> string"
  b_roll_keyword_map :: "(string \<times> string list) list"
  logo_file :: "string option"
  add_subtitles :: bool
  add_b_roll :: bool
  add_logo :: bool
  add_overlays :: bool

text \<open>
  Line 245: \<open>{cue['dialogue_index']: cue['content'] for cue in script_cues
  if cue['type'] == 'overlay'}\<close>; a later cue overwrites an earlier one.
\<close>

fun overlay_map_of :: "cue list \<Rightarrow> (int \<rightharpoonup> string) \<Rightarrow> (int \<rightharpoonup> string)" where
  "overlay_map_of [] m = m"
| "overlay_map_of (c # cs) m =
     overlay_map_of cs (if cue_type c = ''overlay'' then m(dialogue_index c \<mapsto> content c) else m)"

text \<open>Lines 255-270: the b-roll replacement of the current clip.\<close>

definition b_roll_step ::
  "'clip media \<Rightarrow> options \<Rightarrow> 'clip \<Rightarrow> pyval \<Rightarrow> pyval \<Rightarrow> 'clip \<Rightarrow> exn + 'clip" where
  "b_roll_step lib opts main_clip dialogue_text clip_duration current_clip =
     (if add_b_roll opts \<and> b_roll_keyword_map opts \<noteq> [] then
        (case match_b_roll (b_roll_files opts) (b_roll_keyword_map opts) dialogue_text of
           Inl e \<Rightarrow> Inl e
         | Inr matched_b_roll_path \<Rightarrow>
             (case matched_b_roll_path of
                None \<Rightarrow> Inr current_clip
              | Some path \<Rightarrow>
                  if path \<noteq> [] then
                    (case b_roll_clip lib path clip_duration main_clip current_clip of
                       Inl b_roll_error \<Rightarrow> Inr current_clip
                     | Inr b \<Rightarrow> Inr b)
                  else Inr current_clip))
      else Inr current_clip)"

text \<open>Lines 272-282: the layers of one segment; a layer that fails is left out.\<close>

definition subtitle_layers ::
  "'clip media \<Rightarrow> options \<Rightarrow> 'clip \<Rightarrow> pyval \<Rightarrow> pyval \<Rightarrow> 'clip list \<Rightarrow> 'clip list" where
  "subtitle_layers lib opts main_clip dialogue_text clip_duration layers =
     (if add_subtitles opts then
        (case create_text_clip lib dialogue_text clip_duration (clip_size lib main_clip) 40
                (AnchorXY ''center'' ''bottom'') of
           Inl subtitle_error \<Rightarrow> layers
         | Inr t \<Rightarrow> layers @ [t])
      else layers)"

definition overlay_layers ::
  "'clip media \<Rightarrow> options \<Rightarrow> 'clip \<Rightarrow> (int \<rightharpoonup> string) \<Rightarrow> nat \<Rightarrow> pyval \<Rightarrow> 'clip list \<Rightarrow> 'clip list" where
  "overlay_layers lib opts main_clip overlay_map i clip_duration layers =
     (if add_overlays opts then
        (case overlay_map (int i) of
           None \<Rightarrow> layers
         | Some overlay_text \<Rightarrow>
             (case create_text_clip lib (PStr overlay_text) clip_duration (clip_size lib main_clip) 25
                     (Anchor ''center'') of
                Inl overlay_error \<Rightarrow> layers
              | Inr t \<Rightarrow> layers @ [t]))
      else layers)"

text \<open>
  Lines 250-292, the body of the \<open>try\<close> of one cut: the exception that leaves the block,
  or the clip that the block appends to \<open>final_clips\<close> (\<open>None\<close> when it appends nothing).
  The append is the last action of the block and the clip does not depend on
  \<open>final_clips\<close>.
\<close>

definition try_cut ::
  "'clip media \<Rightarrow> options \<Rightarrow> 'clip \<Rightarrow> (int \<rightharpoonup> string) \<Rightarrow> nat \<Rightarrow> cut \<Rightarrow> exn + 'clip option" where
  "try_cut lib opts main_clip overlay_map i cut_i =
     (case cut_getitem cut_i ''start'' of
        Inl e \<Rightarrow> Inl e
      | Inr start_time \<Rightarrow>
     (case cut_getitem cut_i ''end'' of
        Inl e \<Rightarrow> Inl e
      | Inr end_time \<Rightarrow>
     (case cut_getitem cut_i ''text'' of
        Inl e \<Rightarrow> Inl e
      | Inr dialogue_text \<Rightarrow>
     (case py_gt end_time start_time of
        Inl e \<Rightarrow> Inl e
      | Inr end_after_start \<Rightarrow>
     (if end_after_start then
        (case py_sub end_time start_time of
           Inl e \<Rightarrow> Inl e
         | Inr clip_duration \<Rightarrow>
        (case subclip lib main_clip start_time end_time of
           Inl e \<Rightarrow> Inl e
         | Inr base_clip \<Rightarrow>
        (case b_roll_step lib opts main_clip dialogue_text clip_duration base_clip of
           Inl e \<Rightarrow> Inl e
         | Inr current_clip \<Rightarrow>
             (let layers = overlay_layers lib opts main_clip overlay_map i clip_duration
                             (subtitle_layers lib opts main_clip dialogue_text clip_duration
                                [current_clip])
              in (case CompositeVideoClip lib layers of
                    Inl composite_error \<Rightarrow> Inr (Some current_clip)
                  | Inr composed \<Rightarrow> Inr (Some composed))))))
      else Inr None)))))"

text \<open>
  Lines 249-296: the \<open>try\<close> with its handler. On an exception of the block the handler
  formats its warning from \<open>cut.get('start', 'unknown')\<close> and \<open>cut.get('end', 'unknown')\<close>
  and continues with \<open>final_clips\<close> as it was; the handler is outside every \<open>try\<close>, so
  an exception of \<open>cut.get\<close> leaves the loop and the function. The calls of \<open>print\<close>
  are taken to succeed, here and in the other handlers.
\<close>

definition process_cut ::
  "'clip media \<Rightarrow> options \<Rightarrow> 'clip \<Rightarrow> (int \<rightharpoonup> string) \<Rightarrow> nat \<Rightarrow> cut \<Rightarrow> 'clip list
     \<Rightarrow> exn + 'clip list" where
  "process_cut lib opts main_clip overlay_map i cut_i final_clips =
     (case try_cut lib opts main_clip overlay_map i cut_i of
        Inl clip_error \<Rightarrow>
          (case cut_get cut_i ''start'' of
             Inl e \<Rightarrow> Inl e
           | Inr logged_start \<Rightarrow>
               (case cut_get cut_i ''end'' of
                  Inl e \<Rightarrow> Inl e
                | Inr logged_end \<Rightarrow> Inr final_clips))
      | Inr None \<Rightarrow> Inr final_clips
      | Inr (Some clip) \<Rightarrow> Inr (final_clips @ [clip]))"

text \<open>Lines 248-296: \<open>for i, cut in enumerate(cut_list)\<close>.\<close>

fun cut_loop ::
  "'clip media \<Rightarrow> options \<Rightarrow> 'clip \<Rightarrow> (int \<rightharpoonup> string) \<Rightarrow> (nat \<times> cut) list \<Rightarrow> 'clip list
     \<Rightarrow> exn + 'clip list" where
  "cut_loop lib opts main_clip overlay_map [] final_clips = Inr final_clips"
| "cut_loop lib opts main_clip overlay_map ((i, cut_i) # rest) final_clips =
     (case process_cut lib opts main_clip overlay_map i cut_i final_clips of
        Inl e \<Rightarrow> Inl e
      | Inr clips \<Rightarrow> cut_loop lib opts main_clip overlay_map rest clips)"

text \<open>
  Lines 245-296: the composed segments of a cut list, that is \<open>final_clips\<close> after the
  loop, or the exception that leaves the loop.
\<close>

definition compose_segments ::
  "'clip media \<Rightarrow> options \<Rightarrow> 'clip \<Rightarrow> cut list \<Rightarrow> exn + 'clip list" where
  "compose_segments lib opts main_clip cut_list =
     cut_loop lib opts main_clip (overlay_map_of (script_cues opts) Map.empty)
       (enumerate 0 cut_list) []"

text \<open>Lines 310-317: the logo over the whole video; a failure leaves the video without it.\<close>

definition add_logo_layer :: "'clip media \<Rightarrow> options \<Rightarrow> 'clip \<Rightarrow> 'clip \<Rightarrow> 'clip" where
  "add_logo_layer lib opts main_clip final_video =
     (if add_logo opts \<and> truthy_path (logo_file opts) then
        (case logo_file opts of
           None \<Rightarrow> final_video
         | Some path \<Rightarrow>
             (case logo_clip lib path final_video main_clip of
                Inl logo_error \<Rightarrow> final_video
              | Inr logo \<Rightarrow>
                  (case CompositeVideoClip lib [final_video, logo] of
                     Inl logo_error \<Rightarrow> final_video
                   | Inr with_logo \<Rightarrow> with_logo)))
      else final_video)"

text \<open>
  The effects that outlive the call: the call of \<open>write_videofile\<close> on the output path
  and the closing of the source clip.
\<close>

datatype event = Write_videofile string | Close_main

definition output_path :: string where
  "output_path = ''CineAI_Final_Output.mp4''"

text \<open>
  The whole function: what it returns or raises, and the effects in order. The opening of
  the source at line 244 and the handler of line 295 are outside every \<open>try\<close>: their
  exceptions leave the function, with the source not closed.
\<close>

definition assemble_video ::
  "'clip media \<Rightarrow> cut list \<Rightarrow> options \<Rightarrow> (exn + string option) \<times> event list" where
  "assemble_video lib cut_list opts =
     (case VideoFileClip lib (original_video_path opts) of
        Inl e \<Rightarrow> (Inl e, [])
      | Inr main_clip \<Rightarrow>
          (case compose_segments lib opts main_clip cut_list of
             Inl e \<Rightarrow> (Inl e, [])
           | Inr final_clips \<Rightarrow>
               if final_clips = [] then (Inr None, [Close_main])
               else
                 (case concatenate_videoclips lib final_clips of
                    Inl concat_error \<Rightarrow> (Inr None, [Close_main])
                  | Inr final_video \<Rightarrow>
                      (case write_videofile lib (add_logo_layer lib opts main_clip final_video)
                              output_path of
                         Inl write_error \<Rightarrow> (Inr None, [Write_videofile output_path, Close_main])
                       | Inr u \<Rightarrow>
                           (Inr (Some output_path), [Write_videofile output_path, Close_main])))))"

section \<open>Vocabulary of the properties\<close>

subsection \<open>The parser\<close>

text \<open>
  The words of the parser's specification. A marker line is a line whose trimmed,
  lower-cased text is one of the three markers; it has content when a next line exists
  and is not empty after trimming.
\<close>

definition is_marker_line :: "string \<Rightarrow> bool" where
  "is_marker_line l = (clean_line l \<in> set [''dialogue:'', ''b-roll:'', ''overlay:''])"

definition is_dialogue_marker :: "string \<Rightarrow> bool" where
  "is_dialogue_marker l = (clean_line l = ''dialogue:'')"

definition dialogue_marker_lines :: "string list \<Rightarrow> nat list" where
  "dialogue_marker_lines ls = filter (\<lambda>i. is_dialogue_marker (ls ! i)) [0..<length ls]"

definition has_content :: "string list \<Rightarrow> nat \<Rightarrow> bool" where
  "has_content ls i = (Suc i < length ls \<and> py_strip (ls ! Suc i) \<noteq> [])"

text \<open>
  \<open>preceding_rank ls i\<close>: the number of dialogue-marker lines before line \<open>i\<close>, less one.
  \<open>cues_from\<close> and \<open>count_after\<close> are the main loop without its error branches: the
  cues appended for the line indices given, and the counter afterwards. They are proved
  equal to the loop of the source below (\<open>parse_loop_closed\<close>).
\<close>

definition preceding_rank :: "string list \<Rightarrow> nat \<Rightarrow> int" where
  "preceding_rank ls i = int (length (filter (\<lambda>j. j < i) (dialogue_marker_lines ls))) - 1"

definition emits :: "string list \<Rightarrow> nat \<Rightarrow> bool" where
  "emits ls i = (is_marker_line (ls ! i) \<and> has_content ls i)"

fun cues_from :: "string list \<Rightarrow> nat list \<Rightarrow> int \<Rightarrow> cue list" where
  "cues_from ls [] cnt = []"
| "cues_from ls (i # rest) cnt =
     (if emits ls i then
        (if is_dialogue_marker (ls ! i)
         then \<lparr>cue_type = ''dialogue'', content = py_strip (ls ! Suc i), dialogue_index = cnt\<rparr>
                # cues_from ls rest (cnt + 1)
         else \<lparr>cue_type = replace_colon (clean_line (ls ! i)), content = py_strip (ls ! Suc i),
                dialogue_index = preceding_rank ls i\<rparr> # cues_from ls rest cnt)
      else cues_from ls rest cnt)"

fun count_after :: "string list \<Rightarrow> nat list \<Rightarrow> int \<Rightarrow> int" where
  "count_after ls [] cnt = cnt"
| "count_after ls (i # rest) cnt =
     count_after ls rest (if emits ls i \<and> is_dialogue_marker (ls ! i) then cnt + 1 else cnt)"

text \<open>
  The marker lines that have content, in document order.
\<close>

definition emitting_lines :: "string list \<Rightarrow> nat list" where
  "emitting_lines ls = filter (emits ls) [0..<length ls]"

text \<open>
  The linkage of a non-dialogue cue in the specification's words: take the last
  dialogue-marker line strictly before line \<open>i\<close>; its rank is the number of
  dialogue-marker lines of the whole text before it; \<open>-1\<close> when there is none.
\<close>

definition spec_linked_rank :: "string list \<Rightarrow> nat \<Rightarrow> int" where
  "spec_linked_rank ls i =
     (let before = filter (\<lambda>j. j < i) (dialogue_marker_lines ls)
      in if before = [] then - 1
         else int (length (filter (\<lambda>j. j < last before) (dialogue_marker_lines ls))))"

subsection \<open>B-roll matching\<close>

text \<open>
  An entry of the keyword map qualifies for a lower-cased text when one of its non-empty
  keywords occurs in the text and its asset has a non-empty path in \<open>b_roll_files\<close>.
\<close>

definition asset_qualifies :: "(string \<rightharpoonup> string) \<Rightarrow> string \<Rightarrow> string \<times> string list \<Rightarrow> bool" where
  "asset_qualifies files low entry =
     (list_ex (\<lambda>k. k \<noteq> [] \<and> sublist k low) (snd entry) \<and> truthy_path (files (fst entry)))"

text \<open>
  The matching in the specification's words: the case-insensitive substring test, and
  the path of the first asset, in the order of the map, one of whose keywords passes it;
  no path when there is no such asset.
\<close>

definition spec_ci_substring :: "string \<Rightarrow> string \<Rightarrow> bool" where
  "spec_ci_substring k t = sublist (py_lower k) (py_lower t)"

definition spec_match_b_roll ::
  "(string \<rightharpoonup> string) \<Rightarrow> (string \<times> string list) list \<Rightarrow> string \<Rightarrow> string option" where
  "spec_match_b_roll files kwmap t =
     (case find (\<lambda>entry. list_ex (\<lambda>k. spec_ci_substring k t) (snd entry)) kwmap of
        None \<Rightarrow> None
      | Some entry \<Rightarrow> files (fst entry))"

subsection \<open>Cuts and segments\<close>

text \<open>
  A cut is rejected when it is a dict and one of the keys \<open>start\<close>, \<open>end\<close>, \<open>text\<close> is
  absent, or its start or its end is not a number, or its end is not strictly greater
  than its start.
\<close>

fun cut_rejected :: "cut \<Rightarrow> bool" where
  "cut_rejected (Cut_dict d) =
     (case (d ''start'', d ''end'', d ''text'') of
        (Some s, Some e, Some t) \<Rightarrow>
          (case (py_number s, py_number e) of
             (Some x, Some y) \<Rightarrow> y \<le> x
           | _ \<Rightarrow> True)
      | _ \<Rightarrow> True)"
| "cut_rejected Cut_other = False"

fun is_dict :: "cut \<Rightarrow> bool" where
  "is_dict (Cut_dict d) = True"
| "is_dict Cut_other = False"

text \<open>
  The segment of an indexed cut: the clip that the body of the loop appends for it, if
  any.
\<close>

definition cut_segment ::
  "'clip media \<Rightarrow> options \<Rightarrow> 'clip \<Rightarrow> (int \<rightharpoonup> string) \<Rightarrow> nat \<times> cut \<Rightarrow> 'clip option" where
  "cut_segment lib opts main_clip overlay_map entry =
     (case try_cut lib opts main_clip overlay_map (fst entry) (snd entry) of
        Inl e \<Rightarrow> None
      | Inr r \<Rightarrow> r)"

section \<open>Inputs of the examples\<close>

text \<open>
  Scripts on which the properties are run.
\<close>

definition script_two_dialogues :: string where
  "script_two_dialogues =
     ''dialogue:'' @ [CHR 0x0A] @ ''A'' @ [CHR 0x0A] @ ''b-roll:'' @ [CHR 0x0A] @ ''B''
       @ [CHR 0x0A] @ ''Dialogue: '' @ [CHR 0x0A] @ ''C''"

definition script_overlay_first :: string where
  "script_overlay_first =
     ''overlay:'' @ [CHR 0x0A] @ ''T'' @ [CHR 0x0A] @ ''dialogue:'' @ [CHR 0x0A] @ ''A''
       @ [CHR 0x0A] @ ''b-roll:'' @ [CHR 0x0A] @ ''B''"

definition script_contentless_markers :: string where
  "script_contentless_markers =
     ''dialogue:'' @ [CHR 0x0A] @ ''A'' @ [CHR 0x0A] @ ''overlay:'' @ [CHR 0x0A] @ ''  ''
       @ [CHR 0x0A] @ ''b-roll:''"

definition script_marker_as_content :: string where
  "script_marker_as_content = ''dialogue:'' @ [CHR 0x0A] @ ''overlay:'' @ [CHR 0x0A] @ ''X''"

definition script_dropped_dialogues :: string where
  "script_dropped_dialogues =
     ''dialogue:'' @ [CHR 0x0A] @ [CHR 0x0A] @ ''dialogue:'' @ [CHR 0x0A] @ [CHR 0x0A]
       @ ''overlay:'' @ [CHR 0x0A] @ ''X'' @ [CHR 0x0A] @ ''dialogue:'' @ [CHR 0x0A] @ ''Y''"

subsection \<open>A library in which every call succeeds\<close>

text \<open>
  Clips as terms that record how they were built. \<open>term_media\<close> interprets every library
  call by the constructor of that call; it is the library the examples run on.
\<close>

datatype sclip =
    Source string
  | Subclip sclip pyval pyval
  | BRoll string pyval sclip sclip
  | Text pyval int int position pyval
  | Composite "sclip list"
  | Concatenated "sclip list"
  | Logo string sclip sclip

definition term_media :: "sclip media" where
  "term_media =
     \<lparr>VideoFileClip = (\<lambda>path. Inr (Source path)),
      subclip = (\<lambda>c s e. Inr (Subclip c s e)),
      b_roll_clip = (\<lambda>path d m c. Inr (BRoll path d m c)),
      clip_size = (\<lambda>c. (1920, 1080)),
      TextClip = (\<lambda>t f w p d. Inr (Text t f w p d)),
      CompositeVideoClip = (\<lambda>ls. Inr (Composite ls)),
      concatenate_videoclips = (\<lambda>cs. Inr (Concatenated cs)),
      logo_clip = (\<lambda>path v m. Inr (Logo path v m)),
      write_videofile = (\<lambda>c path. Inr ())\<rparr>"

definition plain_options :: options where
  "plain_options =
     \<lparr>original_video_path = ''raw.mp4'', script_cues = [], b_roll_files = Map.empty,
      b_roll_keyword_map = [], logo_file = None, add_subtitles = False, add_b_roll = False,
      add_logo = False, add_overlays = False\<rparr>"

text \<open>
  The same library, except that no source can be opened.
\<close>

definition failing_open :: "sclip media" where
  "failing_open = term_media\<lparr>VideoFileClip := (\<lambda>path. Inl (MediaError ''cannot open''))\<rparr>"

text \<open>
  Cuts and keyword maps of the examples.
\<close>

definition cut_numeric_text :: cut where
  "cut_numeric_text =
     Cut_dict [''start'' \<mapsto> PFloat 1, ''end'' \<mapsto> PFloat 3, ''text'' \<mapsto> PFloat 5]"

definition cut_backwards :: cut where
  "cut_backwards =
     Cut_dict [''start'' \<mapsto> PFloat 3, ''end'' \<mapsto> PFloat 2, ''text'' \<mapsto> PStr ''hello'']"

definition cut_good :: cut where
  "cut_good =
     Cut_dict [''start'' \<mapsto> PFloat 1, ''end'' \<mapsto> PFloat 3, ''text'' \<mapsto> PStr ''Hello world'']"

definition cat_dog_map :: "(string \<times> string list) list" where
  "cat_dog_map = [(''asset1'', [''cat'']), (''asset2'', [''dog''])]"

definition both_files :: "string \<rightharpoonup> string" where
  "both_files = [''asset1'' \<mapsto> ''/b/1'', ''asset2'' \<mapsto> ''/b/2'']"

definition only_asset2_file :: "string \<rightharpoonup> string" where
  "only_asset2_file = [''asset2'' \<mapsto> ''/b/2'']"

section \<open>Properties of the parser\<close>


subsection \<open>The scan for the preceding dialogue marker\<close>

lemma py_index_distinct:
  "distinct (xs @ y # ys) \<Longrightarrow> py_index (xs @ y # ys) y = Inr (length xs)"
  by (induction xs) auto

lemma last_dialogue_loop_sorted:
  "sorted_wrt (<) (xs @ ys) \<Longrightarrow>
   last_dialogue_loop (xs @ ys) i ys l =
     Inr (if filter (\<lambda>j. j < i) ys = [] then l
          else int (length xs + length (filter (\<lambda>j. j < i) ys)) - 1)"
proof (induction ys arbitrary: xs l)
  case Nil
  then show ?case by simp
next
  case (Cons y ys)
  have d: "distinct (xs @ y # ys)"
    using Cons.prems strict_sorted_iff by blast 
  have s: "sorted_wrt (<) ((xs @ [y]) @ ys)" using Cons.prems by simp
  note IH = Cons.IH [OF s]
  show ?case
  proof (cases "y < i")
    case True
    then show ?thesis using IH [of "int (length xs)"] py_index_distinct [OF d] by simp
  next
    case False
    have "\<forall>z \<in> set ys. y < z" using Cons.prems by (auto simp: sorted_wrt_append)
    then have "filter (\<lambda>j. j < i) ys = []" using False by (auto simp: filter_empty_conv)
    then show ?thesis using False IH [of l] by simp
  qed
qed

lemma enumerate_filter_fst:
  "map fst (filter (\<lambda>(i, l). Q l) (enumerate n xs)) = filter (\<lambda>i. Q (xs ! (i - n))) [n..<n + length xs]"
proof (induction xs rule: rev_induct)
  case Nil
  then show ?case by simp
next
  case (snoc x xs)
  have "filter (\<lambda>i. Q ((xs @ [x]) ! (i - n))) [n..<n + length xs] = filter (\<lambda>i. Q (xs ! (i - n))) [n..<n + length xs]"
    by (rule filter_cong) (auto simp: nth_append)
  then show ?case using snoc by (simp add: enumerate_append_eq)
qed

lemma dialogue_indices_eq: "dialogue_indices ls = dialogue_marker_lines ls"
  using enumerate_filter_fst [of "\<lambda>l. clean_line l = ''dialogue:''" 0 ls]
  by (simp add: dialogue_indices_def dialogue_marker_lines_def is_dialogue_marker_def)

lemma dialogue_marker_lines_sorted: "sorted_wrt (<) (dialogue_marker_lines ls)"
  by (simp add: dialogue_marker_lines_def sorted_wrt_filter)

lemma last_dialogue_loop_rank:
  "last_dialogue_loop (dialogue_indices ls) i (dialogue_indices ls) (- 1) =
     Inr (int (length (filter (\<lambda>j. j < i) (dialogue_marker_lines ls))) - 1)"
  using last_dialogue_loop_sorted [of "[]" "dialogue_marker_lines ls" i "- 1"]
        dialogue_marker_lines_sorted [of ls]
  by (simp add: dialogue_indices_eq)

subsection \<open>The main loop in closed form\<close>

lemma replace_colon_marker:
  "is_marker_line l \<Longrightarrow> (replace_colon (clean_line l) = ''dialogue'') = is_dialogue_marker l"
  by (auto simp: is_marker_line_def is_dialogue_marker_def replace_colon_def)

lemma parse_line_step:
  assumes "i < length ls"
  shows "parse_line ls (dialogue_indices ls) i (ls ! i) (cnt, cues) =
     Inr (if emits ls i then
            (if is_dialogue_marker (ls ! i)
             then (cnt + 1, cues @ [\<lparr>cue_type = ''dialogue'', content = py_strip (ls ! Suc i),
                                      dialogue_index = cnt\<rparr>])
             else (cnt, cues @ [\<lparr>cue_type = replace_colon (clean_line (ls ! i)),
                                  content = py_strip (ls ! Suc i),
                                  dialogue_index = preceding_rank ls i\<rparr>]))
          else (cnt, cues))"
proof (cases "is_marker_line (ls ! i)")
  case False
  then show ?thesis by (simp add: parse_line_def emits_def is_marker_line_def Let_def)
next
  case True
  note m = replace_colon_marker [OF True]
  from True have mem: "clean_line (ls ! i) \<in> set [''dialogue:'', ''b-roll:'', ''overlay:'']"
    by (simp add: is_marker_line_def)
  show ?thesis
  proof (cases "has_content ls i")
    case False
    then show ?thesis using mem True
      by (auto simp: parse_line_def emits_def has_content_def Let_def py_getitem_def)
  next
    case hc: True
    then have lt: "Suc i < length ls" and ne: "py_strip (ls ! Suc i) \<noteq> []"
      by (simp_all add: has_content_def)
    show ?thesis
    proof (cases "is_dialogue_marker (ls ! i)")
      case True
      then have "clean_line (ls ! i) = ''dialogue:''" by (simp add: is_dialogue_marker_def)
      then show ?thesis using lt ne hc True \<open>is_marker_line (ls ! i)\<close>
        by (simp add: parse_line_def emits_def Let_def py_getitem_def replace_colon_def)
    next
      case False
      with m have nd: "replace_colon (clean_line (ls ! i)) \<noteq> ''dialogue''" by simp
      show ?thesis using lt ne hc False \<open>is_marker_line (ls ! i)\<close> mem nd
        by (simp add: parse_line_def emits_def Let_def py_getitem_def
              last_dialogue_loop_rank preceding_rank_def del: set_simps)
    qed
  qed
qed

lemma parse_loop_closed:
  assumes "\<forall>p \<in> set ps. fst p < length ls \<and> snd p = ls ! fst p"
  shows "parse_loop ls (dialogue_indices ls) ps (cnt, cues) =
           Inr (count_after ls (map fst ps) cnt, cues @ cues_from ls (map fst ps) cnt)"
  using assms
proof (induction ps arbitrary: cnt cues)
  case Nil
  then show ?case by simp
next
  case (Cons p ps)
  obtain i line where p: "p = (i, line)" by (cases p)
  with Cons.prems have i: "i < length ls" and line: "line = ls ! i" by auto
  from Cons.prems have rest: "\<forall>p \<in> set ps. fst p < length ls \<and> snd p = ls ! fst p" by simp
  show ?case
    unfolding p using parse_line_step [OF i, of cnt cues] Cons.IH [OF rest]
    by (simp add: line)
qed

lemma parse_closed:
  "parse_structured_script text =
     Inr (cues_from (split_newline text) [0..<length (split_newline text)] 0)"
proof -
  let ?ls = "split_newline text"
  have "\<forall>p \<in> set (enumerate 0 ?ls). fst p < length ?ls \<and> snd p = ?ls ! fst p"
    by (auto simp: in_set_enumerate_eq)
  from parse_loop_closed [OF this, of 0 "[]"]
  show ?thesis by (simp add: parse_structured_script_def Let_def)
qed

subsection \<open>The cues of the closed form\<close>

lemma filter_below_last:
  assumes "sorted_wrt (<) (ms :: nat list)" and "filter (\<lambda>j. j < i) ms \<noteq> []"
  shows "length (filter (\<lambda>j. j < last (filter (\<lambda>j. j < i) ms)) ms) = length (filter (\<lambda>j. j < i) ms) - 1"
proof -
  let ?b = "filter (\<lambda>j. j < i) ms"
  have sb: "sorted_wrt (<) ?b" using assms(1) by (simp add: sorted_wrt_filter)
  have li: "last ?b < i" using assms(2) last_in_set [of ?b] by auto 
  have "filter (\<lambda>j. j < last ?b) ms = filter (\<lambda>j. j < last ?b) ?b"
    using li by (auto intro: filter_cong)
  also have "\<dots> = filter (\<lambda>j. j < last ?b) (butlast ?b @ [last ?b])"
    using assms(2) by simp
  also have "\<dots> = butlast ?b"
  proof -
    have "sorted_wrt (<) (butlast ?b @ [last ?b])" using sb assms(2) by simp
    then have "\<forall>x \<in> set (butlast ?b). x < last ?b" by (simp add: sorted_wrt_append)
    then show ?thesis by simp
  qed
  finally show ?thesis by simp
qed

lemma preceding_rank_spec: "preceding_rank ls i = spec_linked_rank ls i"
  using filter_below_last [OF dialogue_marker_lines_sorted, of i ls]
  by (auto simp: preceding_rank_def spec_linked_rank_def Let_def Suc_leI)

lemma emits_nondialogue_type:
  "emits ls i \<Longrightarrow> \<not> is_dialogue_marker (ls ! i) \<Longrightarrow> replace_colon (clean_line (ls ! i)) \<noteq> ''dialogue''"
  using replace_colon_marker [of "ls ! i"] by (simp add: emits_def)

lemma emits_dialogue_type:
  "is_dialogue_marker (ls ! i) \<Longrightarrow> replace_colon (clean_line (ls ! i)) = ''dialogue''"
  by (simp add: is_dialogue_marker_def replace_colon_def)

lemma cues_from_dialogue_indices:
  "map dialogue_index (filter (\<lambda>c. cue_type c = ''dialogue'') (cues_from ls js cnt)) =
     map (\<lambda>k. cnt + int k) [0..<length (filter (\<lambda>i. emits ls i \<and> is_dialogue_marker (ls ! i)) js)]"
proof (induction js arbitrary: cnt)
  case Nil
  then show ?case by simp
next
  case (Cons i js)
  let ?m = "length (filter (\<lambda>i. emits ls i \<and> is_dialogue_marker (ls ! i)) js)"
  have shift: "map (\<lambda>k. cnt + int k) [0..<Suc ?m] = cnt # map (\<lambda>k. cnt + 1 + int k) [0..<?m]"
    by (simp add: upt_conv_Cons map_Suc_upt [symmetric] del: upt_Suc)
  show ?case
    using Cons.IH [of cnt] Cons.IH [of "cnt + 1"] shift emits_nondialogue_type [of ls i]
    by (simp del: upt_Suc)
qed

lemma cues_from_origin:
  "map (\<lambda>c. (cue_type c, content c, if cue_type c = ''dialogue'' then None else Some (dialogue_index c)))
       (cues_from ls js cnt) =
   map (\<lambda>i. (replace_colon (clean_line (ls ! i)), py_strip (ls ! Suc i),
             if is_dialogue_marker (ls ! i) then None else Some (preceding_rank ls i)))
       (filter (emits ls) js)"
  by (induction js arbitrary: cnt)
     (simp_all add: emits_nondialogue_type emits_dialogue_type)

subsection \<open>Dialogue cues\<close>

text \<open>
  Claim C1. When every line that equals \<open>dialogue:\<close> after trimming and lower-casing is
  followed by a line that is not empty after trimming, and there are \<open>N\<close> such lines,
  the parser returns without error, exactly \<open>N\<close> of its cues have type dialogue, and
  their \<open>dialogue_index\<close> values are \<open>0, 1, ..., N-1\<close> in document order.
\<close>

theorem dialogue_cues_indexed_in_order:
  assumes "\<forall>i \<in> set (dialogue_marker_lines (split_newline text)). has_content (split_newline text) i"
  shows "\<exists>cs. parse_structured_script text = Inr cs
           \<and> length (filter (\<lambda>c. cue_type c = ''dialogue'') cs)
               = length (dialogue_marker_lines (split_newline text))
           \<and> map dialogue_index (filter (\<lambda>c. cue_type c = ''dialogue'') cs)
               = map int [0..<length (dialogue_marker_lines (split_newline text))]"
proof -
  let ?ls = "split_newline text"
  let ?cs = "cues_from ?ls [0..<length ?ls] 0"
  have "filter (\<lambda>i. emits ?ls i \<and> is_dialogue_marker (?ls ! i)) [0..<length ?ls] = dialogue_marker_lines ?ls"
    unfolding dialogue_marker_lines_def using assms
    by (intro filter_cong) (auto simp: emits_def is_marker_line_def is_dialogue_marker_def dialogue_marker_lines_def)
  with cues_from_dialogue_indices [of ?ls "[0..<length ?ls]" 0]
  have m: "map dialogue_index (filter (\<lambda>c. cue_type c = ''dialogue'') ?cs)
             = map int [0..<length (dialogue_marker_lines ?ls)]"
    by simp
  from arg_cong [OF m, of length]
  have "length (filter (\<lambda>c. cue_type c = ''dialogue'') ?cs) = length (dialogue_marker_lines ?ls)"
    by simp
  with m show ?thesis by (simp add: parse_closed)
qed

text \<open>
  The script \<open>dialogue: / A / b-roll: / B / Dialogue:  / C\<close> has two dialogue markers,
  each with content; its dialogue cues carry the indices 0 and 1.
\<close>

theorem dialogue_cues_indexed_in_order_witness:
  "list_all (has_content (split_newline script_two_dialogues))
     (dialogue_marker_lines (split_newline script_two_dialogues))
   \<and> (\<exists>cs. parse_structured_script script_two_dialogues = Inr cs
        \<and> length (filter (\<lambda>c. cue_type c = ''dialogue'') cs) = 2
        \<and> map dialogue_index (filter (\<lambda>c. cue_type c = ''dialogue'') cs) = [0, 1])"
proof -
  have h: "\<forall>i \<in> set (dialogue_marker_lines (split_newline script_two_dialogues)).
       has_content (split_newline script_two_dialogues) i"
    by code_simp
  have n: "length (dialogue_marker_lines (split_newline script_two_dialogues)) = 2"
    by code_simp
  from dialogue_cues_indexed_in_order [OF h] h show ?thesis
    by (simp add: n upt_rec list_all_iff)
qed

subsection \<open>Non-dialogue cues\<close>

text \<open>
  Claim C6. The parser returns one cue per marker line with content, in document order:
  the \<open>k\<close>-th cue has the type and the content of the \<open>k\<close>-th such line. When that
  cue is not a dialogue cue, its \<open>dialogue_index\<close> is the rank, among all dialogue-marker
  lines of the text, of the last dialogue-marker line strictly before the cue's own marker
  line, and \<open>-1\<close> when no dialogue-marker line precedes it.
\<close>

theorem nondialogue_cue_links_preceding_marker:
  "\<exists>cs. parse_structured_script text = Inr cs
      \<and> length cs = length (emitting_lines (split_newline text))
      \<and> (\<forall>k < length cs.
            cue_type (cs ! k) = replace_colon (clean_line (split_newline text ! (emitting_lines (split_newline text) ! k)))
          \<and> content (cs ! k) = py_strip (split_newline text ! Suc (emitting_lines (split_newline text) ! k))
          \<and> (cue_type (cs ! k) \<noteq> ''dialogue'' \<longrightarrow>
                dialogue_index (cs ! k)
                  = spec_linked_rank (split_newline text) (emitting_lines (split_newline text) ! k)))"
proof -
  let ?ls = "split_newline text"
  let ?cs = "cues_from ?ls [0..<length ?ls] 0"
  let ?es = "emitting_lines ?ls"
  let ?f = "\<lambda>c. (cue_type c, content c, if cue_type c = ''dialogue'' then None else Some (dialogue_index c))"
  let ?g = "\<lambda>i. (replace_colon (clean_line (?ls ! i)), py_strip (?ls ! Suc i),
             if is_dialogue_marker (?ls ! i) then None else Some (preceding_rank ?ls i))"
  have eq: "map ?f ?cs = map ?g ?es"
    unfolding emitting_lines_def by (rule cues_from_origin)
  from arg_cong [OF eq, of length] have len: "length ?cs = length ?es" by simp
  have "\<forall>k < length ?cs.
            cue_type (?cs ! k) = replace_colon (clean_line (?ls ! (?es ! k)))
          \<and> content (?cs ! k) = py_strip (?ls ! Suc (?es ! k))
          \<and> (cue_type (?cs ! k) \<noteq> ''dialogue'' \<longrightarrow>
                dialogue_index (?cs ! k) = spec_linked_rank ?ls (?es ! k))"
  proof (intro allI impI)
    fix k assume k: "k < length ?cs"
    then have "?f (?cs ! k) = map ?f ?cs ! k" by simp
    also have "\<dots> = ?g (?es ! k)" using k len by (simp add: eq)
    finally have fg: "?f (?cs ! k) = ?g (?es ! k)" .
    then show "cue_type (?cs ! k) = replace_colon (clean_line (?ls ! (?es ! k)))
          \<and> content (?cs ! k) = py_strip (?ls ! Suc (?es ! k))
          \<and> (cue_type (?cs ! k) \<noteq> ''dialogue'' \<longrightarrow>
                dialogue_index (?cs ! k) = spec_linked_rank ?ls (?es ! k))"
      by (auto simp: preceding_rank_spec split: if_splits)
  qed
  with len show ?thesis by (simp add: parse_closed)
qed

text \<open>
  On \<open>overlay: / T / dialogue: / A / b-roll: / B\<close> the overlay precedes every dialogue
  marker and gets \<open>-1\<close>; the b-roll cue follows the first dialogue marker and gets 0.
\<close>

theorem nondialogue_cue_links_preceding_marker_witness:
  "\<exists>cs. parse_structured_script script_overlay_first = Inr cs
        \<and> length cs = 3
        \<and> cue_type (cs ! 0) = ''overlay'' \<and> dialogue_index (cs ! 0) = - 1
        \<and> cue_type (cs ! 2) = ''b-roll'' \<and> content (cs ! 2) = ''B'' \<and> dialogue_index (cs ! 2) = 0"
proof -
  let ?ls = "split_newline script_overlay_first"
  have es: "emitting_lines ?ls = [0, 2, 4]" by code_simp
  have t0: "replace_colon (clean_line (?ls ! 0)) = ''overlay''" by code_simp
  have t2: "replace_colon (clean_line (?ls ! 4)) = ''b-roll''" by code_simp
  have c2: "py_strip (?ls ! 5) = ''B''" by code_simp
  have r0: "spec_linked_rank ?ls 0 = - 1" by code_simp
  have r2: "spec_linked_rank ?ls 4 = 0" by code_simp
  from nondialogue_cue_links_preceding_marker [of script_overlay_first]
  obtain cs where p: "parse_structured_script script_overlay_first = Inr cs"
    and l: "length cs = 3"
    and a: "\<forall>k < length cs.
            cue_type (cs ! k) = replace_colon (clean_line (?ls ! (emitting_lines ?ls ! k)))
          \<and> content (cs ! k) = py_strip (?ls ! Suc (emitting_lines ?ls ! k))
          \<and> (cue_type (cs ! k) \<noteq> ''dialogue'' \<longrightarrow>
                dialogue_index (cs ! k) = spec_linked_rank ?ls (emitting_lines ?ls ! k))"
    by (auto simp: es)
  from a [rule_format, of 0] a [rule_format, of 2] l
  have "cue_type (cs ! 0) = ''overlay'' \<and> dialogue_index (cs ! 0) = - 1
        \<and> cue_type (cs ! 2) = ''b-roll'' \<and> content (cs ! 2) = ''B'' \<and> dialogue_index (cs ! 2) = 0"
    by (simp add: es t0 t2 c2 r0 r2)
  with p l show ?thesis by blast
qed

subsection \<open>Totality and skipped markers\<close>

text \<open>
  Claim C8. For every text the parser returns a cue sequence and raises nothing; the
  sequence has one cue per marker line with content. At a marker line that is the last
  line, or whose next line is empty after trimming, the loop body returns its state
  unchanged: no cue is appended and the dialogue counter stays. The parser is a function
  of the text alone (it reads and writes nothing else), so parsing the same text again
  gives the same sequence.
\<close>

theorem parse_never_raises_and_skips_contentless_markers:
  "(\<exists>cs. parse_structured_script text = Inr cs
        \<and> length cs = length (emitting_lines (split_newline text)))
   \<and> (\<forall>i st. i < length (split_newline text)
          \<and> is_marker_line (split_newline text ! i)
          \<and> (Suc i = length (split_newline text)
               \<or> (Suc i < length (split_newline text) \<and> py_strip (split_newline text ! Suc i) = []))
        \<longrightarrow> parse_line (split_newline text) (dialogue_indices (split_newline text)) i
              (split_newline text ! i) st = Inr st
            \<and> i \<notin> set (emitting_lines (split_newline text)))"
proof -
  let ?ls = "split_newline text"
  have "map (\<lambda>c. (cue_type c, content c, if cue_type c = ''dialogue'' then None else Some (dialogue_index c)))
          (cues_from ?ls [0..<length ?ls] 0)
        = map (\<lambda>i. (replace_colon (clean_line (?ls ! i)), py_strip (?ls ! Suc i),
             if is_dialogue_marker (?ls ! i) then None else Some (preceding_rank ?ls i)))
          (emitting_lines ?ls)"
    unfolding emitting_lines_def by (rule cues_from_origin)
  from arg_cong [OF this, of length]
  have total: "\<exists>cs. parse_structured_script text = Inr cs \<and> length cs = length (emitting_lines ?ls)"
    by (simp add: parse_closed)
  have skip: "parse_line ?ls (dialogue_indices ?ls) i (?ls ! i) st = Inr st \<and> i \<notin> set (emitting_lines ?ls)"
    if "i < length ?ls" and "Suc i = length ?ls \<or> (Suc i < length ?ls \<and> py_strip (?ls ! Suc i) = [])"
    for i st
  proof -
    from that(2) have "\<not> emits ?ls i" by (auto simp: emits_def has_content_def)
    then show ?thesis
      using parse_line_step [OF that(1), of "fst st" "snd st"]
      by (simp add: emitting_lines_def)
  qed
  from total skip show ?thesis by blast
qed

text \<open>
  On \<open>dialogue: / A / overlay: / (two blanks) / b-roll:\<close> only the dialogue cue is
  returned: the overlay marker is followed by a blank line and the b-roll marker is the
  last line.
\<close>

theorem parse_never_raises_and_skips_contentless_markers_witness:
  "parse_structured_script script_contentless_markers
     = Inr [\<lparr>cue_type = ''dialogue'', content = ''A'', dialogue_index = 0\<rparr>]
   \<and> parse_line (split_newline script_contentless_markers)
        (dialogue_indices (split_newline script_contentless_markers)) 2 ''overlay:'' (1, [])
       = Inr (1, [])
   \<and> parse_line (split_newline script_contentless_markers)
        (dialogue_indices (split_newline script_contentless_markers)) 4 ''b-roll:'' (1, [])
       = Inr (1, [])"
proof -
  let ?ls = "split_newline script_contentless_markers"
  have ls: "?ls = [''dialogue:'', ''A'', ''overlay:'', ''  '', ''b-roll:'']" by code_simp
  have es: "emitting_lines ?ls = [0]" by code_simp
  have m2: "is_marker_line (?ls ! 2)" and m4: "is_marker_line (?ls ! 4)" by code_simp+
  have e3: "py_strip (?ls ! Suc 2) = []" by code_simp
  have n: "length ?ls = 5" by code_simp
  have p: "parse_structured_script script_contentless_markers
     = Inr [\<lparr>cue_type = ''dialogue'', content = ''A'', dialogue_index = 0\<rparr>]" by code_simp
  note t = parse_never_raises_and_skips_contentless_markers [of script_contentless_markers]
  from t have a: "\<And>i st. i < length ?ls
          \<and> is_marker_line (?ls ! i)
          \<and> (Suc i = length ?ls \<or> (Suc i < length ?ls \<and> py_strip (?ls ! Suc i) = []))
        \<Longrightarrow> parse_line ?ls (dialogue_indices ?ls) i (?ls ! i) st = Inr st"
    by blast
  have "parse_line ?ls (dialogue_indices ?ls) 2 (?ls ! 2) (1, []) = Inr (1, [])"
    by (rule a) (use m2 e3 n in simp)
  moreover have "parse_line ?ls (dialogue_indices ?ls) 4 (?ls ! 4) (1, []) = Inr (1, [])"
    by (rule a) (use m4 n in simp)
  moreover have "?ls ! 2 = ''overlay:''" "?ls ! 4 = ''b-roll:''" by (simp_all add: ls)
  ultimately show ?thesis using p by simp
qed

subsection \<open>A marker line as content\<close>

text \<open>
  Claim C9. On \<open>dialogue: / overlay: / X\<close> the line \<open>overlay:\<close> is the content of the
  dialogue cue and also opens a cue of its own: the parser returns a dialogue cue with
  content \<open>overlay:\<close> and then an overlay cue with content \<open>X\<close>.
\<close>

theorem marker_line_is_content_and_marker:
  "parse_structured_script script_marker_as_content
     = Inr [\<lparr>cue_type = ''dialogue'', content = ''overlay:'', dialogue_index = 0\<rparr>,
            \<lparr>cue_type = ''overlay'', content = ''X'', dialogue_index = 0\<rparr>]"
  by code_simp

subsection \<open>Dialogue markers without content\<close>

text \<open>
  Claim C7. The claim is that every non-dialogue cue's \<open>dialogue_index\<close> is at most
  that of the next dialogue cue. On \<open>dialogue: / (empty) / dialogue: / (empty) / overlay: /
  X / dialogue: / Y\<close> the two dialogue markers without content are counted by
  \<open>dialogue_indices\<close> but not by \<open>dialogue_count\<close>: the overlay cue gets index 1 and the
  dialogue cue after it gets index 0.
\<close>

theorem overlay_index_exceeds_next_dialogue:
  "parse_structured_script script_dropped_dialogues
     = Inr [\<lparr>cue_type = ''overlay'', content = ''X'', dialogue_index = 1\<rparr>,
            \<lparr>cue_type = ''dialogue'', content = ''Y'', dialogue_index = 0\<rparr>]"
  by code_simp

section \<open>Properties of b-roll matching\<close>

subsection \<open>Empty keywords\<close>

lemma keywords_loop_all_empty:
  "\<forall>k \<in> set kws. k = [] \<Longrightarrow>
   keywords_loop files filename dialogue_text kws matched = Inr matched"
  by (induction kws) (simp_all add: keyword_test_def)

text \<open>
  An asset whose keywords are all empty changes nothing, as long as no path has been
  matched before it (the loop is left as soon as one has).
\<close>

lemma assets_loop_skip_empty:
  assumes "\<forall>k \<in> set kws. k = []" and "\<not> truthy_path matched"
  shows "assets_loop files dialogue_text (pre @ (filename, kws) # post) matched =
         assets_loop files dialogue_text (pre @ post) matched"
  using assms(2)
proof (induction pre arbitrary: matched)
  case Nil
  then show ?case by (simp add: keywords_loop_all_empty [OF assms(1)])
next
  case (Cons entry pre)
  obtain fn ks where e: "entry = (fn, ks)" by (cases entry)
  show ?case unfolding e using Cons.IH
    by (auto split: sum.splits)
qed

text \<open>
  Claim C10. The guard of line 259 makes the test of an empty keyword false for every
  dialogue text, without even lower-casing the text. An asset all of whose keywords are
  empty leaves \<open>matched_b_roll_path\<close> as it was, and the outcome of the matching is the
  one of the keyword map without that asset: the asset is never selected.
\<close>

theorem empty_keywords_never_match:
  assumes "\<forall>k \<in> set kws. k = []"
  shows "keyword_test [] dialogue_text = Inr False
       \<and> keywords_loop files filename dialogue_text kws matched = Inr matched
       \<and> match_b_roll files (pre @ (filename, kws) # post) dialogue_text
           = match_b_roll files (pre @ post) dialogue_text"
  using keywords_loop_all_empty [OF assms] assets_loop_skip_empty [OF assms, of None]
  by (simp add: keyword_test_def match_b_roll_def truthy_path_def)

text \<open>
  The asset \<open>asset1\<close> with the keywords \<open>'', ''\<close> is passed over on the text
  \<open>the dog\<close>, and \<open>asset2\<close> is selected.
\<close>

theorem empty_keywords_never_match_witness:
  "keywords_loop both_files ''asset1'' (PStr ''the dog'') ['''', ''''] None = Inr None
   \<and> match_b_roll both_files [(''asset1'', ['''', '''']), (''asset2'', [''dog''])] (PStr ''the dog'')
       = Inr (Some ''/b/2'')"
proof -
  have h: "\<forall>k \<in> set ['''', ''''::string]. k = []" by simp
  have r: "match_b_roll both_files ([] @ [(''asset2'', [''dog''])]) (PStr ''the dog'') = Inr (Some ''/b/2'')"
    by (simp add: match_b_roll_def keyword_test_def both_files_def truthy_path_def
          py_lower_def lower_char_def sublist_code(3))
  from empty_keywords_never_match [OF h, of "PStr ''the dog''" both_files "''asset1''" None "[]"
         "[(''asset2'', [''dog''])]"] r
  show ?thesis by simp
qed

subsection \<open>The selected asset\<close>

lemma keywords_loop_str:
  "keywords_loop files filename (PStr t) kws matched =
     Inr (if list_ex (\<lambda>k. k \<noteq> [] \<and> sublist k (py_lower t)) kws then files filename else matched)"
  by (induction kws) (auto simp: keyword_test_def)

lemma assets_loop_str:
  assumes "\<not> truthy_path matched"
  shows "\<exists>r. assets_loop files (PStr t) kwmap matched = Inr r
           \<and> (case find (asset_qualifies files (py_lower t)) kwmap of
                 None \<Rightarrow> \<not> truthy_path r
               | Some entry \<Rightarrow> r = files (fst entry) \<and> truthy_path r)"
  using assms
proof (induction kwmap arbitrary: matched)
  case Nil
  then show ?case by simp
next
  case (Cons entry kwmap)
  obtain fn kws where e: "entry = (fn, kws)" by (cases entry)
  let ?hit = "list_ex (\<lambda>k. k \<noteq> [] \<and> sublist k (py_lower t)) kws"
  let ?m = "if ?hit then files fn else matched"
  show ?case
  proof (cases "truthy_path ?m")
    case True
    with Cons.prems have "?hit" and "truthy_path (files fn)" by (auto split: if_splits)
    then show ?thesis unfolding e
      by (simp add: keywords_loop_str asset_qualifies_def)
  next
    case False
    then have nq: "\<not> asset_qualifies files (py_lower t) (fn, kws)"
      by (auto simp: asset_qualifies_def)
    from Cons.IH [OF False] show ?thesis unfolding e using False nq
      by (simp add: keywords_loop_str)
  qed
qed

text \<open>
  Claim C5 as stated: the first asset, in the order of the map, that has a keyword which
  is a case-insensitive substring of the text is the one selected
  (\<open>spec_match_b_roll\<close>). The code differs in three ways. With the map of the claim and
  the text \<open>the cat and the dog\<close>, \<open>asset2\<close> is selected when \<open>asset1\<close> has no entry in
  \<open>b_roll_files\<close> (line 262 leaves the loop only on a path that is set). An empty keyword
  is a substring of every text but is skipped by the guard. A keyword with an upper-case
  letter never matches, since only the text is lower-cased.
\<close>

theorem b_roll_match_not_first_keyword_match:
  "spec_match_b_roll only_asset2_file cat_dog_map ''the cat and the dog'' = None
   \<and> match_b_roll only_asset2_file cat_dog_map (PStr ''the cat and the dog'') = Inr (Some ''/b/2'')
   \<and> spec_match_b_roll both_files [(''asset1'', ['''']), (''asset2'', [''dog''])] ''the dog''
       = Some ''/b/1''
   \<and> match_b_roll both_files [(''asset1'', ['''']), (''asset2'', [''dog''])] (PStr ''the dog'')
       = Inr (Some ''/b/2'')
   \<and> spec_match_b_roll both_files [(''asset1'', [''Cat''])] ''the cat'' = Some ''/b/1''
   \<and> match_b_roll both_files [(''asset1'', [''Cat''])] (PStr ''the cat'') = Inr None"
  by code_simp

text \<open>
  Claim C5, amended. For a dialogue text that is a string, the matching raises nothing
  and selects the path of the first asset, in the order of the keyword map, that has a
  non-empty keyword occurring in the lower-cased text and a non-empty path in
  \<open>b_roll_files\<close>; when there is no such asset (in particular for an empty map) no
  path is selected. For a keyword that is already lower-case, occurring in the
  lower-cased text is the case-insensitive substring test.
\<close>

theorem b_roll_first_qualifying_asset:
  "(\<exists>r. match_b_roll files kwmap (PStr t) = Inr r
        \<and> (case find (asset_qualifies files (py_lower t)) kwmap of
              None \<Rightarrow> \<not> truthy_path r
            | Some entry \<Rightarrow> r = files (fst entry) \<and> truthy_path r))
   \<and> (\<forall>k. py_lower k = k \<longrightarrow> sublist k (py_lower t) = spec_ci_substring k t)"
  using assets_loop_str [of None files t kwmap]
  by (simp add: match_b_roll_def truthy_path_def spec_ci_substring_def)

text \<open>
  With both assets on file, the map \<open>asset1: cat, asset2: dog\<close> and the text
  \<open>the Cat and the dog\<close> select \<open>asset1\<close>.
\<close>

theorem b_roll_first_qualifying_asset_witness:
  "match_b_roll both_files cat_dog_map (PStr ''the Cat and the dog'') = Inr (Some ''/b/1'')"
proof -
  have low: "py_lower ''the Cat and the dog'' = ''the cat and the dog''" by code_simp
  have f: "find (asset_qualifies both_files ''the cat and the dog'') cat_dog_map
             = Some (''asset1'', [''cat''])"
    by (simp add: asset_qualifies_def cat_dog_map_def both_files_def truthy_path_def sublist_code(3))
  have g: "both_files ''asset1'' = Some ''/b/1''" by (simp add: both_files_def)
  from b_roll_first_qualifying_asset [of both_files cat_dog_map "''the Cat and the dog''"]
  show ?thesis by (auto simp: low f g)
qed

section \<open>Properties of the assembly\<close>

subsection \<open>Rejected cuts\<close>

lemma py_gt_True:
  "py_gt e s = Inr True \<Longrightarrow>
     (\<exists>x y. py_number s = Some x \<and> py_number e = Some y \<and> x < y) \<or> (\<exists>a b. e = PStr a \<and> s = PStr b)"
  by (cases e; cases s) (auto split: if_splits)

lemma py_sub_str: "py_sub (PStr a) (PStr b) = Inl TypeError"
  by (simp add: py_sub_def)

lemma try_cut_rejected:
  assumes "cut_rejected c"
  shows "try_cut lib opts main_clip overlay_map i c \<noteq> Inr (Some clip)"
proof
  assume t: "try_cut lib opts main_clip overlay_map i c = Inr (Some clip)"
  from assms obtain d where c: "c = Cut_dict d" by (cases c) auto
  from t obtain s e tx where s: "d ''start'' = Some s" and e: "d ''end'' = Some e"
      and tx: "d ''text'' = Some tx"
    unfolding c by (auto simp: try_cut_def dict_getitem_def split: option.splits)
  from t s e tx have g: "py_gt e s = Inr True"
    unfolding c by (auto simp: try_cut_def dict_getitem_def split: sum.splits if_splits)
  from t s e tx g obtain dur where dur: "py_sub e s = Inr dur"
    unfolding c by (auto simp: try_cut_def dict_getitem_def split: sum.splits)
  from py_gt_True [OF g] show False
  proof
    assume "\<exists>x y. py_number s = Some x \<and> py_number e = Some y \<and> x < y"
    with assms s e tx show False unfolding c by auto
  next
    assume "\<exists>a b. e = PStr a \<and> s = PStr b"
    with dur show False by (auto simp: py_sub_str)
  qed
qed

lemma cut_segment_rejected:
  assumes "cut_rejected c"
  shows "cut_segment lib opts main_clip overlay_map (i, c) = None"
proof (cases "try_cut lib opts main_clip overlay_map i c")
  case (Inl e)
  then show ?thesis by (simp add: cut_segment_def)
next
  case (Inr r)
  with try_cut_rejected [OF assms, of lib opts main_clip overlay_map i]
  have "r = None" by (cases r) auto
  with Inr show ?thesis by (simp add: cut_segment_def)
qed

lemma process_cut_dict:
  "process_cut lib opts main_clip overlay_map i (Cut_dict d) final_clips =
     Inr (case cut_segment lib opts main_clip overlay_map (i, Cut_dict d) of
            None \<Rightarrow> final_clips
          | Some clip \<Rightarrow> final_clips @ [clip])"
  by (simp add: process_cut_def cut_segment_def split: sum.splits option.splits)

lemma process_cut_other:
  "process_cut lib opts main_clip overlay_map i Cut_other final_clips = Inl AttributeError"
  by (simp add: process_cut_def try_cut_def)

lemma process_cut_rejected:
  assumes "cut_rejected c"
  shows "process_cut lib opts main_clip overlay_map i c final_clips = Inr final_clips"
proof -
  from assms obtain d where c: "c = Cut_dict d" by (cases c) auto
  from cut_segment_rejected [OF assms, of lib opts main_clip overlay_map i]
  show ?thesis unfolding c by (simp add: process_cut_dict)
qed

lemma cut_loop_append:
  "cut_loop lib opts main_clip overlay_map (xs @ ys) final_clips =
     (case cut_loop lib opts main_clip overlay_map xs final_clips of
        Inl e \<Rightarrow> Inl e
      | Inr clips \<Rightarrow> cut_loop lib opts main_clip overlay_map ys clips)"
  by (induction xs arbitrary: final_clips) (auto split: sum.splits)

lemma cut_loop_closed:
  "cut_loop lib opts main_clip overlay_map ps final_clips =
     (if list_all (\<lambda>p. is_dict (snd p)) ps
      then Inr (final_clips @ List.map_filter (cut_segment lib opts main_clip overlay_map) ps)
      else Inl AttributeError)"
proof (induction ps arbitrary: final_clips)
  case Nil
  then show ?case by simp
next
  case (Cons p ps)
  obtain i c where p: "p = (i, c)" by (cases p)
  show ?case
  proof (cases c)
    case (Cut_dict d)
    then show ?thesis unfolding p using Cons.IH
      by (simp add: process_cut_dict split: option.splits)
  next
    case Cut_other
    then show ?thesis unfolding p by (simp add: process_cut_other)
  qed
qed

lemma compose_segments_closed:
  "compose_segments lib opts main_clip cut_list =
     (if list_all is_dict cut_list
      then Inr (List.map_filter
                  (cut_segment lib opts main_clip (overlay_map_of (script_cues opts) Map.empty))
                  (enumerate 0 cut_list))
      else Inl AttributeError)"
proof -
  have "list_all (\<lambda>p. is_dict (snd p)) (enumerate 0 cut_list) = list_all is_dict cut_list"
    using list.pred_map [of is_dict snd "enumerate 0 cut_list"] by (simp add: comp_def)
  then show ?thesis by (simp add: compose_segments_def cut_loop_closed)
qed

lemma compose_segments_all_rejected:
  assumes "list_all cut_rejected cut_list"
  shows "compose_segments lib opts main_clip cut_list = Inr []"
proof -
  have d: "list_all is_dict cut_list"
  proof -
    have "is_dict c" if "cut_rejected c" for c using that by (cases c) auto
    with assms show ?thesis by (auto simp: list_all_iff)
  qed
  have "cut_segment lib opts main_clip om p = None" if "cut_rejected (snd p)" for p om
    using cut_segment_rejected [OF that, of lib opts main_clip om "fst p"] by simp
  then have "filter (\<lambda>p. cut_segment lib opts main_clip om p \<noteq> None) (enumerate 0 cut_list) = []" for om
    using assms by (auto simp: filter_empty_conv list_all_iff in_set_enumerate_eq)
  then show ?thesis using d by (simp add: compose_segments_closed map_filter_def)
qed

text \<open>
  Claim C2 as stated also drops a cut whose text has an unusable type. The code never
  checks the type of the text: with b-roll and subtitles off, a cut whose text is the
  number 5 contributes its segment.
\<close>

theorem numeric_text_still_contributes:
  "compose_segments term_media plain_options (Source ''raw.mp4'') [cut_numeric_text]
     = Inr [Composite [Subclip (Source ''raw.mp4'') (PFloat 1) (PFloat 3)]]"
  by (simp add: compose_segments_def process_cut_def try_cut_def
          dict_getitem_def cut_numeric_text_def term_media_def plain_options_def b_roll_step_def
          subtitle_layers_def overlay_layers_def py_sub_def)

text \<open>
  Claim C2, amended. A cut is rejected when it is a dict and its \<open>start\<close>, \<open>end\<close> or
  \<open>text\<close> key is absent, or its start or its end is not a number, or its end is not
  strictly greater than its start. The body of the loop returns from a rejected cut
  without an exception and with the segments composed so far as they were, whatever the
  library does, and the loop goes on: the outcome for a cut list that holds a rejected cut
  is that of the cuts before it, continued by the loop over the cuts after it, which keep
  their positions in the list.
\<close>

theorem rejected_cut_is_skipped:
  assumes "cut_rejected c"
  shows "process_cut lib opts main_clip overlay_map i c final_clips = Inr final_clips
       \<and> compose_segments lib opts main_clip (pre @ c # post) =
           (case compose_segments lib opts main_clip pre of
              Inl e \<Rightarrow> Inl e
            | Inr clips \<Rightarrow>
                cut_loop lib opts main_clip (overlay_map_of (script_cues opts) Map.empty)
                  (enumerate (Suc (length pre)) post) clips)"
  by (simp add: process_cut_rejected [OF assms] compose_segments_def enumerate_append_eq
        cut_loop_append split: sum.splits)

text \<open>
  A cut that ends before it starts, between two good cuts: two segments.
\<close>

theorem rejected_cut_is_skipped_witness:
  "cut_rejected cut_backwards
   \<and> process_cut term_media plain_options (Source ''raw.mp4'') Map.empty 1 cut_backwards
        [Composite [Subclip (Source ''raw.mp4'') (PFloat 1) (PFloat 3)]]
       = Inr [Composite [Subclip (Source ''raw.mp4'') (PFloat 1) (PFloat 3)]]
   \<and> compose_segments term_media plain_options (Source ''raw.mp4'')
        [cut_good, cut_backwards, cut_good]
       = Inr [Composite [Subclip (Source ''raw.mp4'') (PFloat 1) (PFloat 3)],
              Composite [Subclip (Source ''raw.mp4'') (PFloat 1) (PFloat 3)]]"
proof -
  have r: "cut_rejected cut_backwards" by (simp add: cut_backwards_def)
  have one: "compose_segments term_media plain_options (Source ''raw.mp4'') [cut_good]
      = Inr [Composite [Subclip (Source ''raw.mp4'') (PFloat 1) (PFloat 3)]]"
    by (simp add: compose_segments_def process_cut_def try_cut_def
          dict_getitem_def cut_good_def term_media_def plain_options_def b_roll_step_def
          subtitle_layers_def overlay_layers_def py_sub_def)
  have last: "process_cut term_media plain_options (Source ''raw.mp4'')
       (overlay_map_of (script_cues plain_options) Map.empty) (Suc (Suc 0)) cut_good
       [Composite [Subclip (Source ''raw.mp4'') (PFloat 1) (PFloat 3)]]
      = Inr [Composite [Subclip (Source ''raw.mp4'') (PFloat 1) (PFloat 3)],
             Composite [Subclip (Source ''raw.mp4'') (PFloat 1) (PFloat 3)]]"
    by (simp add: process_cut_def try_cut_def
          dict_getitem_def cut_good_def term_media_def plain_options_def b_roll_step_def
          subtitle_layers_def overlay_layers_def py_sub_def)
  from rejected_cut_is_skipped [OF r, of term_media plain_options "Source ''raw.mp4''" Map.empty 1
         "[Composite [Subclip (Source ''raw.mp4'') (PFloat 1) (PFloat 3)]]" "[cut_good]" "[cut_good]"]
  show ?thesis using r one last by simp
qed

subsection \<open>Order of the segments\<close>

text \<open>
  Claim C3. When every cut is a dict the loop returns, and the composed segments are the
  segments of the cuts that yield one, in the order of the cut list; otherwise the
  handler of line 295 raises and no sequence is produced. There are at most as many
  segments as cuts, and the indexed cuts that yield the segments form a subsequence of
  the indexed cut list, the \<open>j\<close>-th segment being the one composed for the \<open>j\<close>-th cut
  kept. A dropped cut leaves no entry.
\<close>

theorem segments_follow_cut_order:
  "compose_segments lib opts main_clip cut_list =
     (if list_all is_dict cut_list
      then Inr (List.map_filter
                  (cut_segment lib opts main_clip (overlay_map_of (script_cues opts) Map.empty))
                  (enumerate 0 cut_list))
      else Inl AttributeError)
   \<and> length (List.map_filter
               (cut_segment lib opts main_clip (overlay_map_of (script_cues opts) Map.empty))
               (enumerate 0 cut_list)) \<le> length cut_list
   \<and> (\<exists>kept. subseq kept (enumerate 0 cut_list)
         \<and> map (cut_segment lib opts main_clip (overlay_map_of (script_cues opts) Map.empty)) kept
             = map Some
                 (List.map_filter
                    (cut_segment lib opts main_clip (overlay_map_of (script_cues opts) Map.empty))
                    (enumerate 0 cut_list)))"
proof -
  let ?f = "cut_segment lib opts main_clip (overlay_map_of (script_cues opts) Map.empty)"
  let ?ps = "enumerate 0 cut_list"
  let ?kept = "filter (\<lambda>p. ?f p \<noteq> None) ?ps"
  have len: "length (List.map_filter ?f ?ps) \<le> length cut_list"
    using length_filter_le [of "\<lambda>p. ?f p \<noteq> None" ?ps] by (simp add: map_filter_def)
  have "map ?f ?kept = map Some (List.map_filter ?f ?ps)"
    by (auto simp: map_filter_def)
  moreover have "subseq ?kept ?ps" by simp
  ultimately have "\<exists>kept. subseq kept ?ps \<and> map ?f kept = map Some (List.map_filter ?f ?ps)"
    by blast
  with len show ?thesis by (simp add: compose_segments_closed)
qed

subsection \<open>Failure of the whole assembly\<close>

text \<open>
  What the call returns once the source is open and the loop has returned: \<open>None\<close>,
  with no call of \<open>write_videofile\<close>, when no segment survives; \<open>None\<close> when the
  concatenation or \<open>write_videofile\<close> raises; the output path in every other case.
\<close>

lemma assemble_video_outcome:
  assumes "VideoFileClip lib (original_video_path opts) = Inr main_clip"
    and "compose_segments lib opts main_clip cut_list = Inr clips"
  shows "(clips = [] \<longrightarrow> assemble_video lib cut_list opts = (Inr None, [Close_main]))
       \<and> (fst (assemble_video lib cut_list opts) = Inr None \<longleftrightarrow>
            clips = []
            \<or> (\<exists>e. concatenate_videoclips lib clips = Inl e)
            \<or> (\<exists>final_video e.
                  concatenate_videoclips lib clips = Inr final_video
                  \<and> write_videofile lib (add_logo_layer lib opts main_clip final_video) output_path
                    = Inl e))
       \<and> (fst (assemble_video lib cut_list opts) = Inr None
            \<or> assemble_video lib cut_list opts
                 = (Inr (Some output_path), [Write_videofile output_path, Close_main]))"
  using assms by (auto simp: assemble_video_def split: sum.splits)

lemma assemble_video_all_rejected:
  assumes "VideoFileClip lib (original_video_path opts) = Inr main_clip"
    and "list_all cut_rejected cut_list"
  shows "assemble_video lib cut_list opts = (Inr None, [Close_main])"
  using assms(1) compose_segments_all_rejected [OF assms(2), of lib opts main_clip]
  by (simp add: assemble_video_def)

text \<open>
  A cut that is not a dict: the handler of line 295 raises AttributeError, which leaves
  \<open>assemble_video\<close>.
\<close>

lemma non_dict_cut_raises:
  "assemble_video term_media [Cut_other] plain_options = (Inl AttributeError, [])
   \<and> assemble_video term_media [cut_good, Cut_other, cut_good] plain_options
       = (Inl AttributeError, [])"
proof -
  have "\<not> list_all is_dict [Cut_other]"
    and "\<not> list_all is_dict [cut_good, Cut_other, cut_good]" by simp_all
  then show ?thesis
    by (simp add: assemble_video_def compose_segments_closed term_media_def plain_options_def)
qed

text \<open>
  Claim C4. The claim is that a run in which no usable segment survives, for instance on
  an empty cut list, returns \<open>None\<close>, and that the whole assembly fails in no other way
  than by that value. The source is opened at line 244 outside every \<open>try\<close>: with an
  empty cut list and a source that cannot be opened, the exception leaves
  \<open>assemble_video\<close> and nothing is returned.
\<close>

theorem unopenable_source_raises:
  "assemble_video failing_open [] plain_options = (Inl (MediaError ''cannot open''), [])"
  by (simp add: assemble_video_def failing_open_def term_media_def plain_options_def)

end
